theory Spec2Isabelle
  imports Main
begin

section \<open>JavaScript values read by the front-ends\<close>

text \<open>
  The front-ends read the bodies of HTTP responses with \<^verbatim>\<open>response.json()\<close> and then
  look at a few named properties. A parsed body is a JSON value; a JavaScript value is a
  JSON value or \<^verbatim>\<open>undefined\<close> (\<open>None\<close>). An object is the association list of its own
  properties. Of a number only the test against zero is ever used.
\<close>

datatype json =
    JNull
  | JBool bool
  | JNum int
  | JStr string
  | JArr "json list"
  | JObj "(string \<times> json) list"

type_synonym jsval = "json option"

text \<open>
  The exceptions the handlers can see: a TypeError from reading a property of \<^verbatim>\<open>null\<close> or
  \<^verbatim>\<open>undefined\<close> or from calling what is not a function, the rejection of \<^verbatim>\<open>fetch\<close>, the
  rejection of \<^verbatim>\<open>response.json()\<close>, and the \<^verbatim>\<open>Error\<close> one handler throws itself with the
  status text of the response.
\<close>

datatype js_error = TypeError | FetchFailed | JsonFailed | ServerError string

text \<open>JavaScript truthiness, as \<^verbatim>\<open>if (x)\<close> and \<^verbatim>\<open>x && y\<close> test it.\<close>

fun truthy :: "jsval \<Rightarrow> bool" where
  "truthy None = False"
| "truthy (Some JNull) = False"
| "truthy (Some (JBool b)) = b"
| "truthy (Some (JNum n)) = (n \<noteq> 0)"
| "truthy (Some (JStr s)) = (s \<noteq> [])"
| "truthy (Some (JArr xs)) = True"
| "truthy (Some (JObj kvs)) = True"

text \<open>
  \<^verbatim>\<open>x.k\<close> for one of the property names the sources use, on a value that is neither
  \<^verbatim>\<open>null\<close> nor \<^verbatim>\<open>undefined\<close>: an object gives its property, every other value gives
  \<^verbatim>\<open>undefined\<close> (none of the names is a built-in property of arrays, strings, numbers or
  booleans).
\<close>

fun member_of :: "json \<Rightarrow> string \<Rightarrow> jsval" where
  "member_of (JObj kvs) k = map_of kvs k"
| "member_of j k = None"

text \<open>\<^verbatim>\<open>x.k\<close>: a TypeError on \<^verbatim>\<open>null\<close> and \<^verbatim>\<open>undefined\<close>.\<close>

fun dot :: "jsval \<Rightarrow> string \<Rightarrow> js_error + jsval" where
  "dot None k = Inl TypeError"
| "dot (Some JNull) k = Inl TypeError"
| "dot (Some j) k = Inr (member_of j k)"

text \<open>\<^verbatim>\<open>x?.k\<close>: \<^verbatim>\<open>undefined\<close> on \<^verbatim>\<open>null\<close> and \<^verbatim>\<open>undefined\<close>.\<close>

fun qdot :: "jsval \<Rightarrow> string \<Rightarrow> jsval" where
  "qdot None k = None"
| "qdot (Some JNull) k = None"
| "qdot (Some j) k = member_of j k"

text \<open>\<^verbatim>\<open>x?.[0]\<close>: the first element of an array, the first character of a string.\<close>

fun qidx0 :: "jsval \<Rightarrow> jsval" where
  "qidx0 None = None"
| "qidx0 (Some JNull) = None"
| "qidx0 (Some (JArr xs)) = (case xs of [] \<Rightarrow> None | y # ys \<Rightarrow> Some y)"
| "qidx0 (Some (JStr s)) = (case s of [] \<Rightarrow> None | c # cs \<Rightarrow> Some (JStr [c]))"
| "qidx0 (Some (JObj kvs)) = map_of kvs ''0''"
| "qidx0 (Some j) = None"

section \<open>The retry loop of getSuggestion (static/script.js)\<close>

text \<open>
  One iteration of the loop awaits \<^verbatim>\<open>fetch\<close> and then \<^verbatim>\<open>response.json()\<close>, both inside
  one \<^verbatim>\<open>try\<close>. What the network does to an attempt is therefore one of: \<^verbatim>\<open>fetch\<close>
  rejects; a response arrives, with its \<^verbatim>\<open>ok\<close> flag, and its body either fails to parse
  (\<^verbatim>\<open>json()\<close> rejects) or parses to a JSON value.
\<close>

datatype body = Unparsable | Parsed json

datatype attempt = FetchRejects | Response bool body

text \<open>
  The variables of the loop. \<open>fetches\<close>, \<open>delays\<close> and \<open>console_errors\<close> record its
  effects: the calls of \<^verbatim>\<open>fetch\<close>, the arguments of the \<^verbatim>\<open>setTimeout\<close> waits in order, and
  the calls of \<^verbatim>\<open>console.error\<close>. \<open>response\<close> holds the \<^verbatim>\<open>ok\<close> flag of the last response
  assigned.
\<close>

record retry_state =
  attempts :: nat
  response :: "bool option"
  result :: jsval
  fetches :: nat
  delays :: "nat list"
  console_errors :: nat

definition initial_retry_state :: retry_state where
  "initial_retry_state =
     \<lparr>attempts = 0, response = None, result = None, fetches = 0, delays = [],
      console_errors = 0\<rparr>"

text \<open>
  The body of the \<^verbatim>\<open>try\<close> with its \<^verbatim>\<open>catch\<close>: the flag says whether \<^verbatim>\<open>break\<close> was
  reached. \<^verbatim>\<open>response\<close> is assigned before \<^verbatim>\<open>json()\<close> is awaited, \<^verbatim>\<open>result\<close> only when
  \<^verbatim>\<open>json()\<close> resolves.
\<close>

fun try_fetch :: "attempt \<Rightarrow> retry_state \<Rightarrow> bool \<times> retry_state" where
  "try_fetch FetchRejects s =
     (False, s\<lparr>fetches := Suc (fetches s), console_errors := Suc (console_errors s)\<rparr>)"
| "try_fetch (Response ok Unparsable) s =
     (False, s\<lparr>fetches := Suc (fetches s), response := Some ok,
                console_errors := Suc (console_errors s)\<rparr>)"
| "try_fetch (Response ok (Parsed j)) s =
     (ok, s\<lparr>fetches := Suc (fetches s), response := Some ok, result := Some j\<rparr>)"

definition max_retries_result :: json where
  "max_retries_result =
     JObj [(''error'',
            JObj [(''message'', JStr ''Max retries reached. Could not fetch response.'')])]"

text \<open>
  The \<^verbatim>\<open>while\<close> loop. The source fixes \<^verbatim>\<open>maxRetries = 3\<close> and the factor \<^verbatim>\<open>1000\<close>; both
  are parameters here, and \<open>getSuggestion_loop\<close> below is the loop as the source has it.
  \<open>server n\<close> is what happens to the \<open>n\<close>-th call of \<^verbatim>\<open>fetch\<close>, counted from 0.
\<close>

function retry_loop :: "nat \<Rightarrow> nat \<Rightarrow> (nat \<Rightarrow> attempt) \<Rightarrow> retry_state \<Rightarrow> retry_state" where
  "retry_loop maxRetries baseDelayMs server s =
     (if attempts s < maxRetries then
        (case try_fetch (server (fetches s)) s of
           (True, s1) \<Rightarrow> s1
         | (False, s1) \<Rightarrow>
             (let s2 = s1\<lparr>attempts := Suc (attempts s1)\<rparr> in
              if attempts s2 < maxRetries
              then retry_loop maxRetries baseDelayMs server
                     (s2\<lparr>delays := delays s2 @ [2 ^ attempts s2 * baseDelayMs]\<rparr>)
              else retry_loop maxRetries baseDelayMs server
                     (s2\<lparr>result := Some max_retries_result\<rparr>)))
      else s)"
  by pat_completeness auto
termination
proof (relation "measure (\<lambda>(maxRetries, baseDelayMs, server, s). maxRetries - attempts s)")
  show "wf (measure (\<lambda>(maxRetries, baseDelayMs, server, s). maxRetries - attempts s))"
    by simp
next
  fix maxRetries baseDelayMs :: nat and server s x s1 s2
  assume "attempts s < maxRetries" and "(x, s1) = try_fetch (server (fetches s)) s"
    and "s2 = s1\<lparr>attempts := Suc (attempts s1)\<rparr>"
  moreover from this have "attempts s1 = attempts s"
    by (cases "(server (fetches s), s)" rule: try_fetch.cases) auto
  ultimately show
    "((maxRetries, baseDelayMs, server,
       s2\<lparr>delays := delays s2 @ [2 ^ attempts s2 * baseDelayMs]\<rparr>),
      (maxRetries, baseDelayMs, server, s))
     \<in> measure (\<lambda>(maxRetries, baseDelayMs, server, s). maxRetries - attempts s)"
    and
    "((maxRetries, baseDelayMs, server, s2\<lparr>result := Some max_retries_result\<rparr>),
      (maxRetries, baseDelayMs, server, s))
     \<in> measure (\<lambda>(maxRetries, baseDelayMs, server, s). maxRetries - attempts s)"
    by auto
qed

definition getSuggestion_loop :: "(nat \<Rightarrow> attempt) \<Rightarrow> retry_state" where
  "getSuggestion_loop server = retry_loop 3 1000 server initial_retry_state"

text \<open>
  How the loop treats an attempt: it is a failed attempt when the \<^verbatim>\<open>try\<close> block throws
  (\<^verbatim>\<open>fetch\<close> or \<^verbatim>\<open>json()\<close> rejects) or when the response that came back is not
  \<^verbatim>\<open>ok\<close>; it is a successful attempt when both awaits resolve and the response is
  \<^verbatim>\<open>ok\<close>.
\<close>

fun failed_attempt :: "attempt \<Rightarrow> bool" where
  "failed_attempt FetchRejects = True"
| "failed_attempt (Response ok Unparsable) = True"
| "failed_attempt (Response ok (Parsed j)) = (\<not> ok)"

text \<open>
  The criterion of the specification for retrying an attempt, in its own words: the
  attempt fails at transport, or it returns a status that is not a success status. It
  is compared with \<open>failed_attempt\<close>, which is what the loop does.
\<close>

fun transport_or_non_2xx :: "attempt \<Rightarrow> bool" where
  "transport_or_non_2xx FetchRejects = True"
| "transport_or_non_2xx (Response ok b) = (\<not> ok)"

text \<open>
  The specification's RequestResult, read off the variables the loop leaves behind. The
  loop has left through \<^verbatim>\<open>break\<close> exactly when \<^verbatim>\<open>attempts < maxRetries\<close> still holds;
  otherwise the retry budget is used up and \<open>result\<close> holds the object with the
  message. \<open>None\<close>: the variables hold neither (the loop never ran).
\<close>

datatype failure_reason = NetworkError | NonOkStatus | MaxRetriesExceeded

datatype request_result = Success json | Failure failure_reason string

definition request_result_of :: "nat \<Rightarrow> retry_state \<Rightarrow> request_result option" where
  "request_result_of maxRetries s =
     (if attempts s < maxRetries then map_option Success (result s)
      else (case qdot (qdot (result s) ''error'') ''message'' of
              Some (JStr m) \<Rightarrow> Some (Failure MaxRetriesExceeded m)
            | _ \<Rightarrow> None))"

section \<open>getSuggestion around the loop (static/script.js)\<close>

text \<open>
  What the suggestion box shows: the placeholder, the spinner, the suggested text
  (\<^verbatim>\<open>candidate.content.parts[0].text\<close>), the API error text followed by
  \<^verbatim>\<open>result.error.message\<close>, or the API error text followed by the message of an
  exception caught while the result was read.
\<close>

datatype box =
    BoxPlaceholder
  | BoxSpinner
  | BoxSuggestion jsval
  | BoxApiError jsval
  | BoxException js_error

record suggest_ui =
  isRunning :: bool
  lastErrorMessage :: string
  suggestion_disabled :: bool
  suggestionBox :: box

text \<open>
  The \<^verbatim>\<open>try\<close> block after the loop: the box it leaves, given the box before, or the
  exception it throws; \<^verbatim>\<open>result.error\<close> throws when \<^verbatim>\<open>result\<close> is \<^verbatim>\<open>null\<close> or
  \<^verbatim>\<open>undefined\<close>. \<open>show_result\<close> is the block with its \<^verbatim>\<open>catch\<close>.
\<close>

definition read_result :: "jsval \<Rightarrow> box \<Rightarrow> js_error + box" where
  "read_result res b =
     (let candidate = qidx0 (qdot res ''candidates'');
          txt = qdot (qidx0 (qdot (qdot candidate ''content'') ''parts'')) ''text''
      in if truthy candidate \<and> truthy txt then Inr (BoxSuggestion txt)
         else (case dot res ''error'' of
                 Inl e \<Rightarrow> Inl e
               | Inr err \<Rightarrow>
                   Inr (if truthy err then BoxApiError (qdot err ''message'') else b)))"

definition show_result :: "jsval \<Rightarrow> box \<Rightarrow> box" where
  "show_result res b = (case read_result res b of Inl e \<Rightarrow> BoxException e | Inr b' \<Rightarrow> b')"

text \<open>
  \<^verbatim>\<open>getSuggestion\<close>: the guard, \<^verbatim>\<open>setRunning(true, ...)\<close>, the loop, the reading of the
  result, and \<^verbatim>\<open>setRunning(false, ...)\<close> in the \<^verbatim>\<open>finally\<close>. The second component is the
  state of the loop, whose \<open>fetches\<close> counts every call of \<^verbatim>\<open>fetch\<close> the function made.
  \<open>getSuggestion_with\<close> has the two constants of the loop as parameters;
  \<open>getSuggestion\<close> is the function of the source.
\<close>

definition getSuggestion_with ::
  "nat \<Rightarrow> nat \<Rightarrow> (nat \<Rightarrow> attempt) \<Rightarrow> suggest_ui \<Rightarrow> suggest_ui \<times> retry_state" where
  "getSuggestion_with maxRetries baseDelayMs server ui =
     (if isRunning ui \<or> lastErrorMessage ui = [] then (ui, initial_retry_state)
      else
        (let ui1 = ui\<lparr>isRunning := True, suggestion_disabled := True,
                       suggestionBox := BoxSpinner\<rparr>;
             s = retry_loop maxRetries baseDelayMs server initial_retry_state;
             ui2 = ui1\<lparr>suggestionBox := show_result (result s) (suggestionBox ui1)\<rparr>
         in (ui2\<lparr>isRunning := False, suggestion_disabled := False\<rparr>, s)))"

definition getSuggestion :: "(nat \<Rightarrow> attempt) \<Rightarrow> suggest_ui \<Rightarrow> suggest_ui \<times> retry_state" where
  "getSuggestion = getSuggestion_with 3 1000"

section \<open>Editor persistence (static/script.js)\<close>

text \<open>
  A snapshot of the remote document as the listener sees it: the document does not exist,
  or it exists and its \<^verbatim>\<open>code\<close> field is absent (\<open>None\<close>) or a string.
\<close>

datatype docsnap = NoDocument | Document "string option"

text \<open>
  The state the persistence code works on. \<open>saveTimeout\<close> is the pending timer, by the
  time at which it is due (\<open>None\<close>: no timer is pending); \<open>listening\<close> says that
  \<^verbatim>\<open>setupEditorPersistence\<close> has registered the snapshot listener and the change handler.
  \<open>setDoc_calls\<close> lists the calls of \<^verbatim>\<open>setDoc\<close> with the time of the call and the
  \<^verbatim>\<open>code\<close> written; \<open>outstanding\<close> holds the writes whose promise has not settled yet,
  oldest first; \<open>remote\<close> is the document in the store. Times are in milliseconds.
  The editor widget is not part of the sources: \<open>setValue_notifies\<close> says whether it
  fires its change event when \<^verbatim>\<open>editor.setValue\<close> replaces the content, as it does when
  the user edits.
\<close>

record sync_state =
  db_ready :: bool
  userId :: "string option"
  editor_value :: string
  listening :: bool
  saveTimeout :: "nat option"
  setDoc_calls :: "(nat \<times> string) list"
  outstanding :: "string list"
  remote :: docsnap
  console :: "string list"
  setValue_notifies :: bool

text \<open>\<^verbatim>\<open>!userId\<close> holds for \<^verbatim>\<open>null\<close> and for the empty string.\<close>

fun has_user :: "string option \<Rightarrow> bool" where
  "has_user None = False"
| "has_user (Some u) = (u \<noteq> [])"

text \<open>
  \<^verbatim>\<open>saveEditorContent\<close> up to its \<^verbatim>\<open>await\<close>: the guard, then the call of \<^verbatim>\<open>setDoc\<close> with
  the content the editor has at that moment.
\<close>

definition saveEditorContent :: "nat \<Rightarrow> sync_state \<Rightarrow> sync_state" where
  "saveEditorContent now s =
     (if \<not> db_ready s \<or> \<not> has_user (userId s) then s
      else s\<lparr>setDoc_calls := setDoc_calls s @ [(now, editor_value s)],
             outstanding := outstanding s @ [editor_value s]\<rparr>)"

text \<open>
  The rest of \<^verbatim>\<open>saveEditorContent\<close>: the promise of the oldest outstanding write settles,
  resolved (the store then holds the content written) or rejected (the \<^verbatim>\<open>catch\<close> logs).
\<close>

definition setDoc_settles :: "bool \<Rightarrow> sync_state \<Rightarrow> sync_state" where
  "setDoc_settles resolved s =
     (case outstanding s of
        [] \<Rightarrow> s
      | c # cs \<Rightarrow>
          if resolved
          then s\<lparr>outstanding := cs, remote := Document (Some c),
                 console := console s @ [''Editor content saved successfully.'']\<rparr>
          else s\<lparr>outstanding := cs, console := console s @ [''Error saving document:'']\<rparr>)"

text \<open>
  The handler of the editor's change event: \<^verbatim>\<open>clearTimeout(saveTimeout)\<close>, then a new
  timer of 2000 ms.
\<close>

definition on_change :: "nat \<Rightarrow> sync_state \<Rightarrow> sync_state" where
  "on_change now s = s\<lparr>saveTimeout := Some (now + 2000)\<rparr>"

text \<open>
  The callback given to \<^verbatim>\<open>onSnapshot\<close>, called at time \<open>now\<close>. The callback does not
  touch the timer itself; the change handler runs when the widget reports the new content
  as a change.
\<close>

fun on_snapshot :: "docsnap \<Rightarrow> nat \<Rightarrow> sync_state \<Rightarrow> sync_state" where
  "on_snapshot NoDocument now s = s"
| "on_snapshot (Document None) now s = s"
| "on_snapshot (Document (Some savedCode)) now s =
     (if savedCode = [] then s
      else if editor_value s \<noteq> savedCode
      then (let s1 = s\<lparr>editor_value := savedCode\<rparr>;
                s2 = (if setValue_notifies s then on_change now s1 else s1)
            in s2\<lparr>console := console s2 @ [''Editor content loaded from Firestore.'']\<rparr>)
      else s)"

definition setupEditorPersistence :: "nat \<Rightarrow> sync_state \<Rightarrow> sync_state" where
  "setupEditorPersistence now s =
     (if \<not> db_ready s \<or> \<not> has_user (userId s)
      then s\<lparr>console := console s
                  @ [''Cannot set up persistence: DB or User ID not available.'']\<rparr>
      else saveEditorContent now (s\<lparr>listening := True, saveTimeout := None\<rparr>))"

text \<open>
  The event loop. An event is an edit by the user (the editor then holds the given
  content and fires its change event), a snapshot delivered by the store, or the settling
  of the oldest outstanding write. Before an event at time \<open>t\<close> is handled, a timer due at
  or before \<open>t\<close> fires: it runs \<^verbatim>\<open>saveEditorContent\<close> at the time it is due.
\<close>

datatype event = Change string | Snapshot docsnap | Settled bool

definition fire_due :: "nat \<Rightarrow> sync_state \<Rightarrow> sync_state" where
  "fire_due t s =
     (case saveTimeout s of
        None \<Rightarrow> s
      | Some due \<Rightarrow> if due \<le> t then saveEditorContent due (s\<lparr>saveTimeout := None\<rparr>) else s)"

fun handle :: "event \<Rightarrow> nat \<Rightarrow> sync_state \<Rightarrow> sync_state" where
  "handle (Change v) t s =
     (if listening s then on_change t (s\<lparr>editor_value := v\<rparr>) else s\<lparr>editor_value := v\<rparr>)"
| "handle (Snapshot d) t s = (if listening s then on_snapshot d t s else s)"
| "handle (Settled resolved) t s = setDoc_settles resolved s"

fun run :: "(nat \<times> event) list \<Rightarrow> sync_state \<Rightarrow> sync_state" where
  "run [] s = s"
| "run ((t, e) # es) s = run es (handle e t (fire_due t s))"

text \<open>Nothing more happens: a timer still pending fires when it is due.\<close>

definition quiesce :: "sync_state \<Rightarrow> sync_state" where
  "quiesce s = (case saveTimeout s of None \<Rightarrow> s | Some due \<Rightarrow> fire_due due s)"

text \<open>
  A sequence of edits, each with its time and the content it leaves in the editor, in
  which every edit comes less than the debounce interval after the one before.
\<close>

fun close_edits :: "(nat \<times> string) list \<Rightarrow> bool" where
  "close_edits [] = True"
| "close_edits [e] = True"
| "close_edits ((t1, v1) # (t2, v2) # es) =
     (t1 \<le> t2 \<and> t2 < t1 + 2000 \<and> close_edits ((t2, v2) # es))"

fun edit_event :: "nat \<times> string \<Rightarrow> nat \<times> event" where
  "edit_event (t, v) = (t, Change v)"

text \<open>
  Times that lie at least the debounce interval apart, and a trace whose events come in
  the order of their times, none before \<open>t\<close>.
\<close>

fun spaced :: "nat list \<Rightarrow> bool" where
  "spaced [] = True"
| "spaced [a] = True"
| "spaced (a # b # ts) = (a + 2000 \<le> b \<and> spaced (b # ts))"

fun in_order :: "nat \<Rightarrow> (nat \<times> event) list \<Rightarrow> bool" where
  "in_order t [] = True"
| "in_order t ((t', e) # es) = (t \<le> t' \<and> in_order t' es)"

text \<open>
  What the debounce keeps true at time \<open>t\<close>: the writes made so far started at least the
  interval apart and none after \<open>t\<close>, and a pending timer is due at least the interval
  after each of them.
\<close>

definition debounced :: "nat \<Rightarrow> sync_state \<Rightarrow> bool" where
  "debounced t s =
     (spaced (map fst (setDoc_calls s))
      \<and> list_all (\<lambda>w. w \<le> t) (map fst (setDoc_calls s))
      \<and> (case saveTimeout s of
            None \<Rightarrow> True
          | Some due \<Rightarrow> list_all (\<lambda>w. w + 2000 \<le> due) (map fst (setDoc_calls s))))"

text \<open>
  A page after \<^verbatim>\<open>initializeAppAndAuth\<close> has signed the user in and the editor has
  been given its first content (here a one-line program), before
  \<^verbatim>\<open>setupEditorPersistence\<close> runs, with the document the store holds and an editor that
  reports \<^verbatim>\<open>setValue\<close> as a change.
\<close>

definition signed_in :: "docsnap \<Rightarrow> sync_state" where
  "signed_in doc =
     \<lparr>db_ready = True, userId = Some ''uid-1'', editor_value = ''print(1)'',
      listening = False, saveTimeout = None, setDoc_calls = [], outstanding = [],
      remote = doc, console = [], setValue_notifies = True\<rparr>"

section \<open>The run-code handlers\<close>

text \<open>
  What one run-code request meets: \<^verbatim>\<open>fetch\<close> rejects, or a response arrives with its
  \<^verbatim>\<open>ok\<close> flag, its status text and its body.
\<close>

datatype reply = NoReply | Reply bool string body

text \<open>
  Text put on the page is kept as the pieces it is concatenated from: a literal, a
  JavaScript value (converted to a string by the browser), the message of an exception.
  Bengali literals of the sources are written as English glosses in square brackets.
\<close>

datatype piece = Lit string | Val jsval | Msg js_error

record page =
  run_disabled :: bool
  run_label :: string
  out :: "piece list"
  out_classes :: "string list"
  out_color :: string
  status :: string

definition add_class :: "string \<Rightarrow> string list \<Rightarrow> string list" where
  "add_class c cs = (if c \<in> set cs then cs else cs @ [c])"

subsection \<open>static/script.js, first front-end: handleRunCode\<close>

text \<open>\<^verbatim>\<open>displayResult(output, error)\<close>; \<open>Some e\<close> is a truthy \<^verbatim>\<open>error\<close>.\<close>

fun displayResult :: "piece list \<Rightarrow> piece list option \<Rightarrow> page \<Rightarrow> page" where
  "displayResult output (Some e) p = p\<lparr>out := Lit ''Error: '' # e, out_color := ''#f44336''\<rparr>"
| "displayResult output None p = p\<lparr>out := output, out_color := ''#cccccc''\<rparr>"

text \<open>
  \<^verbatim>\<open>handleRunCode\<close>, which the click handler calls. This front-end never touches
  \<^verbatim>\<open>runButton.disabled\<close>. The \<^verbatim>\<open>try\<close> block after its first two assignments: it ends
  with the page it leaves, or it throws (\<open>Inl\<close>). A response that is not \<^verbatim>\<open>ok\<close> throws
  before its body is read.
\<close>

fun handleRunCode_try :: "reply \<Rightarrow> page \<Rightarrow> js_error + page" where
  "handleRunCode_try NoReply p = Inl FetchFailed"
| "handleRunCode_try (Reply ok st b) p =
     (if \<not> ok then Inl (ServerError st)
      else (case b of
              Unparsable \<Rightarrow> Inl JsonFailed
            | Parsed data \<Rightarrow>
                (case dot (Some data) ''error'' of
                   Inl e \<Rightarrow> Inl e
                 | Inr err \<Rightarrow>
                     Inr (if truthy err then displayResult [] (Some [Val err]) p
                          else displayResult [Val (member_of data ''output'')] None p))))"

definition handleRunCode :: "reply \<Rightarrow> page \<Rightarrow> page" where
  "handleRunCode r p =
     (let p1 = p\<lparr>out := [Lit ''Running code...''], out_color := ''#8ab4f8''\<rparr>
      in case handleRunCode_try r p1 of
           Inl e \<Rightarrow> displayResult [] (Some [Lit ''Network or Unexpected Error: '', Msg e]) p1
         | Inr p2 \<Rightarrow> p2)"

subsection \<open>src/script.js: the click handler of the run button\<close>

definition script_catch :: "page \<Rightarrow> page" where
  "script_catch p =
     p\<lparr>out := [Lit ''Internal Error: Could not connect to the server or unexpected response.''],
       out_classes := add_class ''error'' (out_classes p),
       status := ''Connection Error''\<rparr>"

definition script_error_text :: "jsval \<Rightarrow> piece list" where
  "script_error_text err =
     [Lit ''Error ('', Val (qdot err ''type''), Lit ''): '', Val (qdot err ''message''),
      Lit ''\<newline>'']
     @ (if truthy (qdot err ''suggestion'')
        then [Lit ''\<newline>'', Val (qdot err ''suggestion'')] else [])"

text \<open>The \<^verbatim>\<open>try\<close> block: the page it leaves, or the exception it throws.\<close>

fun script_try :: "reply \<Rightarrow> page \<Rightarrow> js_error + page" where
  "script_try NoReply p = Inl FetchFailed"
| "script_try (Reply ok st Unparsable) p = Inl JsonFailed"
| "script_try (Reply ok st (Parsed data)) p =
     (case dot (Some data) ''error'' of
        Inl e \<Rightarrow> Inl e
      | Inr err \<Rightarrow>
          Inr (if truthy err
               then p\<lparr>out := (if truthy (member_of data ''output'')
                               then [Val (member_of data ''output''), Lit ''\<newline>'']
                                    @ script_error_text err
                               else script_error_text err),
                      out_classes := add_class ''error'' (out_classes p),
                      status := ''Finished with Errors''\<rparr>
               else p\<lparr>out := [Val (member_of data ''output'')],
                      out_classes := add_class ''success'' (out_classes p),
                      status := ''Execution Complete''\<rparr>))"

text \<open>
  The handler: the assignments before the \<^verbatim>\<open>try\<close>, the \<^verbatim>\<open>try\<close> with its \<^verbatim>\<open>catch\<close>, and
  the \<^verbatim>\<open>finally\<close>.
\<close>

definition script_click :: "reply \<Rightarrow> page \<Rightarrow> page" where
  "script_click r p =
     (let p1 = p\<lparr>out := [Lit ''Running code...''], out_classes := [],
                   status := ''Executing...'', run_disabled := True\<rparr>;
          p2 = (case script_try r p1 of Inl e \<Rightarrow> script_catch p1 | Inr p' \<Rightarrow> p')
      in p2\<lparr>run_disabled := False\<rparr>)"

subsection \<open>unnamed/part_000: the click handler of the run button\<close>

text \<open>The \<^verbatim>\<open>catch\<close> block is the one of src/script.js.\<close>

fun part_000_try :: "reply \<Rightarrow> page \<Rightarrow> js_error + page" where
  "part_000_try NoReply p = Inl FetchFailed"
| "part_000_try (Reply ok st Unparsable) p = Inl JsonFailed"
| "part_000_try (Reply ok st (Parsed data)) p =
     (case dot (Some data) ''error'' of
        Inl e \<Rightarrow> Inl e
      | Inr err \<Rightarrow>
          Inr (if truthy err
               then p\<lparr>out := [Val err],
                      out_classes := add_class ''error'' (out_classes p),
                      status := ''Finished with Errors''\<rparr>
               else p\<lparr>out := [Val (member_of data ''output'')],
                      out_classes := add_class ''success'' (out_classes p),
                      status := ''Execution Complete''\<rparr>))"

definition part_000_click :: "reply \<Rightarrow> page \<Rightarrow> page" where
  "part_000_click r p =
     (let p1 = p\<lparr>out := [Lit ''Running code...''], out_classes := [],
                   status := ''Executing...'', run_disabled := True\<rparr>;
          p2 = (case part_000_try r p1 of Inl e \<Rightarrow> script_catch p1 | Inr p' \<Rightarrow> p')
      in p2\<lparr>run_disabled := False\<rparr>)"

subsection \<open>unnamed/part_001: cleanError and runCode\<close>

text \<open>\<^verbatim>\<open>s.includes(pat)\<close> on strings.\<close>

fun includes_str :: "string \<Rightarrow> string \<Rightarrow> bool" where
  "includes_str [] pat = (pat = [])"
| "includes_str (c # cs) pat = (take (length pat) (c # cs) = pat \<or> includes_str cs pat)"

text \<open>
  \<^verbatim>\<open>x.includes(pat)\<close> on a truthy value: strings and arrays have the method, on every
  other value the call is a TypeError.
\<close>

fun js_includes :: "json \<Rightarrow> string \<Rightarrow> js_error + bool" where
  "js_includes (JStr s) pat = Inr (includes_str s pat)"
| "js_includes (JArr xs) pat = Inr (JStr pat \<in> set xs)"
| "js_includes j pat = Inl TypeError"

definition cleanError :: "jsval \<Rightarrow> js_error + piece list" where
  "cleanError errorStr =
     (case errorStr of
        None \<Rightarrow> Inr [Lit ''An unknown error occurred during execution.'']
      | Some j \<Rightarrow>
          if \<not> truthy errorStr then Inr [Lit ''An unknown error occurred during execution.'']
          else (case js_includes j ''Execution timed out'' of
                  Inl e \<Rightarrow> Inl e
                | Inr timed_out \<Rightarrow>
                    Inr (if timed_out
                         then [Lit ''Timeout Error: Code execution exceeded the 5 second limit (likely an infinite loop).'']
                         else if js_includes j ''EOFError: EOF when reading a line'' = Inr True
                         then [Lit ''Input Error: Code requested input() but the 'User Input' box was empty. Please provide all necessary input values.'']
                         else if js_includes j ''NameError'' = Inr True
                         then [Val errorStr, Lit ''\<newline>\<newline>Suggestion: A variable or function was used but not defined. Check for spelling errors or missing initialization.'']
                         else if js_includes j ''SyntaxError'' = Inr True
                         then [Val errorStr, Lit ''\<newline>\<newline>Suggestion: Check the line number mentioned for incorrect syntax (e.g., missing colon, unmatched parentheses, or incorrect indentation).'']
                         else if js_includes j ''TypeError'' = Inr True
                         then [Val errorStr, Lit ''\<newline>\<newline>Suggestion: An operation was attempted on an incompatible type (e.g., adding a string to a number). Check data types.'']
                         else [Val errorStr])))"

definition part_001_catch :: "page \<Rightarrow> page" where
  "part_001_catch p =
     p\<lparr>out := [Lit ''Network Error: Could not connect to the execution environment.''],
       out_classes := [''error'']\<rparr>"

fun part_001_try :: "reply \<Rightarrow> page \<Rightarrow> js_error + page" where
  "part_001_try NoReply p = Inl FetchFailed"
| "part_001_try (Reply ok st Unparsable) p = Inl JsonFailed"
| "part_001_try (Reply ok st (Parsed res)) p =
     (case dot (Some res) ''error'' of
        Inl e \<Rightarrow> Inl e
      | Inr err \<Rightarrow>
          if ok then
            (if truthy err
             then (case cleanError err of
                     Inl e \<Rightarrow> Inl e
                   | Inr msg \<Rightarrow> Inr (p\<lparr>out := msg, out_classes := [''error'']\<rparr>))
             else Inr (p\<lparr>out := [Val (member_of res ''output'')], out_classes := []\<rparr>))
          else Inr (p\<lparr>out := [Lit ''Server Error: '',
                                if truthy err then Val err else Lit st],
                      out_classes := [''error'']\<rparr>))"

definition part_001_runCode :: "reply \<Rightarrow> page \<Rightarrow> page" where
  "part_001_runCode r p =
     (let p1 = p\<lparr>out := [Lit ''Executing code...''], out_classes := [],
                   run_disabled := True\<rparr>;
          p2 = (case part_001_try r p1 of Inl e \<Rightarrow> part_001_catch p1 | Inr p' \<Rightarrow> p')
      in p2\<lparr>run_disabled := False\<rparr>)"

subsection \<open>static/script.js, third front-end: runCode\<close>

text \<open>\<^verbatim>\<open>updateOutput(content, isError)\<close>: the text, and the class \<^verbatim>\<open>error\<close> toggled to \<^verbatim>\<open>isError\<close>.\<close>

definition updateOutput :: "piece list \<Rightarrow> bool \<Rightarrow> page \<Rightarrow> page" where
  "updateOutput content isError p =
     p\<lparr>out := content,
       out_classes := (if isError then add_class ''error'' (out_classes p)
                       else removeAll ''error'' (out_classes p))\<rparr>"

definition analysis_section :: "string list \<Rightarrow> jsval \<Rightarrow> string \<Rightarrow> string \<Rightarrow> piece list" where
  "analysis_section selected results k heading =
     (if k \<in> set selected \<and> truthy (qdot results k)
      then [Lit heading, Val (qdot results k)] else [])"

definition firebase_catch :: "page \<Rightarrow> page" where
  "firebase_catch p =
     updateOutput [Lit ''--- [network error] ---\<newline>[the server could not be reached; check the connection or the API endpoint]''] True p"

fun firebase_try :: "string list \<Rightarrow> reply \<Rightarrow> page \<Rightarrow> js_error + page" where
  "firebase_try selected NoReply p = Inl FetchFailed"
| "firebase_try selected (Reply ok st Unparsable) p = Inl JsonFailed"
| "firebase_try selected (Reply ok st (Parsed res)) p =
     (if ok then
        (case dot (Some res) ''output'' of
           Inl e \<Rightarrow> Inl e
         | Inr output \<Rightarrow>
             (let results = member_of res ''analysis_results'' in
              Inr (updateOutput
                ([Lit ''--- [result] ---\<newline>'', Val output]
                 @ (if truthy results \<and> selected \<noteq> []
                    then [Lit ''\<newline>\<newline>--- [analysis result] ---'']
                         @ analysis_section selected results ''lexical''
                             ''\<newline>\<newline>[ Lexical Analysis ]:\<newline>''
                         @ analysis_section selected results ''syntax''
                             ''\<newline>\<newline>[ Syntax Analysis ]:\<newline>''
                         @ analysis_section selected results ''semantic''
                             ''\<newline>\<newline>[ Semantic Analysis ]:\<newline>''
                         @ analysis_section selected results ''icg''
                             ''\<newline>\<newline>[ Intermediate Code Generation (ICG) ]:\<newline>''
                    else []))
                False p)))
      else
        (case dot (Some res) ''error'' of
           Inl e \<Rightarrow> Inl e
         | Inr err \<Rightarrow>
             Inr (updateOutput
               [Lit ''--- [error]: '',
                if truthy err then Val err else Lit ''Server Execution Failed'',
                Lit '' ---\<newline>'',
                if truthy (member_of res ''details'') then Val (member_of res ''details'')
                else Lit []]
               True p)))"

definition firebase_runCode :: "string list \<Rightarrow> reply \<Rightarrow> page \<Rightarrow> page" where
  "firebase_runCode selected r p =
     (let p1 = (updateOutput [Lit ''[code is executing...]''] False p)
                 \<lparr>run_disabled := True, run_label := ''[running...]''\<rparr>;
          p2 = (case firebase_try selected r p1 of
                  Inl e \<Rightarrow> firebase_catch p1
                | Inr p' \<Rightarrow> p')
      in p2\<lparr>run_disabled := False, run_label := ''Run Code''\<rparr>)"

definition fresh_page :: page where
  "fresh_page =
     \<lparr>run_disabled = False, run_label = ''Run Code'', out = [], out_classes = [],
      out_color = [], status = []\<rparr>"

definition run_ok :: json where
  "run_ok = JObj [(''output'', JStr ''Hello, World!'')]"

definition run_error :: json where
  "run_error = JObj [(''error'', JStr ''NameError: name x is not defined'')]"

text \<open>Servers used as concrete inputs.\<close>

definition always_rejects :: "nat \<Rightarrow> attempt" where
  "always_rejects n = FetchRejects"

definition answers :: "bool \<Rightarrow> json \<Rightarrow> nat \<Rightarrow> attempt" where
  "answers ok j n = Response ok (Parsed j)"

definition rejects_then_answers :: "json \<Rightarrow> nat \<Rightarrow> attempt" where
  "rejects_then_answers j n = (if n = 0 then FetchRejects else Response True (Parsed j))"

definition api_error :: json where
  "api_error = JObj [(''error'', JObj [(''message'', JStr ''API key not valid'')])]"

definition ok_not_json :: "nat \<Rightarrow> attempt" where
  "ok_not_json n = Response True Unparsable"

definition after_failed_run :: suggest_ui where
  "after_failed_run =
     \<lparr>isRunning = False, lastErrorMessage = ''NameError: name x is not defined'',
      suggestion_disabled = False, suggestionBox = BoxPlaceholder\<rparr>"

section \<open>Properties of the retry client\<close>

lemma try_fetch_failed:
  assumes "failed_attempt a"
  obtains s1 where "try_fetch a s = (False, s1)" and "attempts s1 = attempts s"
    and "fetches s1 = Suc (fetches s)" and "delays s1 = delays s"
  using assms by (cases "(a, s)" rule: try_fetch.cases) auto

lemma retry_loop_all_failed:
  assumes "attempts s < maxRetries"
    and "\<And>n. fetches s \<le> n \<Longrightarrow> n < fetches s + (maxRetries - attempts s)
           \<Longrightarrow> failed_attempt (server n)"
  shows "attempts (retry_loop maxRetries baseDelayMs server s) = maxRetries
       \<and> fetches (retry_loop maxRetries baseDelayMs server s)
           = fetches s + (maxRetries - attempts s)
       \<and> delays (retry_loop maxRetries baseDelayMs server s)
           = delays s @ map (\<lambda>k. 2 ^ k * baseDelayMs) [Suc (attempts s)..<maxRetries]
       \<and> result (retry_loop maxRetries baseDelayMs server s) = Some max_retries_result"
  using assms
proof (induction maxRetries baseDelayMs server s rule: retry_loop.induct)
  case (1 maxRetries baseDelayMs server s)
  have "failed_attempt (server (fetches s))"
    using "1.prems" by simp
  then obtain s1 where
    s1: "try_fetch (server (fetches s)) s = (False, s1)" "attempts s1 = attempts s"
      "fetches s1 = Suc (fetches s)" "delays s1 = delays s"
    by (rule try_fetch_failed)
  show ?case
  proof (cases "Suc (attempts s) < maxRetries")
    case True
    let ?s3 = "s1\<lparr>attempts := Suc (attempts s1),
                  delays := delays s1 @ [2 ^ Suc (attempts s1) * baseDelayMs]\<rparr>"
    have unf: "retry_loop maxRetries baseDelayMs server s
             = retry_loop maxRetries baseDelayMs server ?s3"
      using "1.prems"(1) True s1 by (subst retry_loop.simps) (simp add: Let_def)
    have ih: "attempts (retry_loop maxRetries baseDelayMs server ?s3) = maxRetries
       \<and> fetches (retry_loop maxRetries baseDelayMs server ?s3)
           = fetches ?s3 + (maxRetries - attempts ?s3)
       \<and> delays (retry_loop maxRetries baseDelayMs server ?s3)
           = delays ?s3 @ map (\<lambda>k. 2 ^ k * baseDelayMs) [Suc (attempts ?s3)..<maxRetries]
       \<and> result (retry_loop maxRetries baseDelayMs server ?s3) = Some max_retries_result"
      using "1.IH"(1)[OF "1.prems"(1) s1(1)[symmetric] refl refl] True s1 "1.prems"(2)
      by simp
    have up: "[Suc (attempts s)..<maxRetries]
            = Suc (attempts s) # [Suc (Suc (attempts s))..<maxRetries]"
      using True by (simp add: upt_conv_Cons)
    show ?thesis
      using ih unf up s1 True by simp
  next
    case False
    let ?s3 = "s1\<lparr>attempts := Suc (attempts s1), result := Some max_retries_result\<rparr>"
    have unf: "retry_loop maxRetries baseDelayMs server s
             = retry_loop maxRetries baseDelayMs server ?s3"
      using "1.prems"(1) False s1 by (subst retry_loop.simps) (simp add: Let_def)
    have stop: "retry_loop maxRetries baseDelayMs server ?s3 = ?s3"
      using False s1 by (subst retry_loop.simps) simp
    have "maxRetries = Suc (attempts s)"
      using False "1.prems"(1) by simp
    then show ?thesis
      using unf stop s1 by simp
  qed
qed

text \<open>
  Claim C1. For every \<open>maxRetries = N \<ge> 1\<close> and \<open>baseDelayMs > 0\<close>, if every
  attempt fails (the attempt throws, or the response is not ok), the loop calls
  \<^verbatim>\<open>fetch\<close> exactly \<open>N\<close> times, ends with the MaxRetriesExceeded failure, and the waits
  between the attempts are \<open>baseDelayMs * 2^1, ..., baseDelayMs * 2^(N-1)\<close>, in this
  order.
\<close>

theorem retry_exhausts_after_maxRetries_failures:
  assumes "1 \<le> maxRetries" and "0 < baseDelayMs"
    and "\<forall>i<maxRetries. failed_attempt (server i)"
  shows "fetches (retry_loop maxRetries baseDelayMs server initial_retry_state) = maxRetries
       \<and> attempts (retry_loop maxRetries baseDelayMs server initial_retry_state) = maxRetries
       \<and> request_result_of maxRetries
            (retry_loop maxRetries baseDelayMs server initial_retry_state)
           = Some (Failure MaxRetriesExceeded
                     ''Max retries reached. Could not fetch response.'')
       \<and> delays (retry_loop maxRetries baseDelayMs server initial_retry_state)
           = map (\<lambda>k. baseDelayMs * 2 ^ k) [1..<maxRetries]"
proof -
  have "attempts initial_retry_state < maxRetries"
    using assms(1) by (simp add: initial_retry_state_def)
  moreover have "\<And>n. fetches initial_retry_state \<le> n \<Longrightarrow>
      n < fetches initial_retry_state + (maxRetries - attempts initial_retry_state) \<Longrightarrow>
      failed_attempt (server n)"
    using assms(3) by (simp add: initial_retry_state_def)
  ultimately have
    "attempts (retry_loop maxRetries baseDelayMs server initial_retry_state) = maxRetries
       \<and> fetches (retry_loop maxRetries baseDelayMs server initial_retry_state)
           = fetches initial_retry_state + (maxRetries - attempts initial_retry_state)
       \<and> delays (retry_loop maxRetries baseDelayMs server initial_retry_state)
           = delays initial_retry_state
             @ map (\<lambda>k. 2 ^ k * baseDelayMs) [Suc (attempts initial_retry_state)..<maxRetries]
       \<and> result (retry_loop maxRetries baseDelayMs server initial_retry_state)
           = Some max_retries_result"
    by (rule retry_loop_all_failed)
  then show ?thesis
    by (simp add: initial_retry_state_def request_result_of_def max_retries_result_def
        mult.commute)
qed

text \<open>The loop of the source (three attempts, factor 1000) against a dead network.\<close>

theorem retry_exhausts_witness:
  "(1::nat) \<le> 3 \<and> (0::nat) < 1000
   \<and> failed_attempt (always_rejects 0) \<and> failed_attempt (always_rejects 1)
   \<and> failed_attempt (always_rejects 2)
   \<and> fetches (getSuggestion_loop always_rejects) = 3
   \<and> request_result_of 3 (getSuggestion_loop always_rejects)
       = Some (Failure MaxRetriesExceeded ''Max retries reached. Could not fetch response.'')
   \<and> delays (getSuggestion_loop always_rejects) = [2000, 4000]"
proof -
  have h: "\<forall>i<3. failed_attempt (always_rejects i)"
    by (simp add: always_rejects_def)
  have u: "[1..<3] = [1, 2::nat]"
    by (simp add: upt_rec)
  show ?thesis
    using retry_exhausts_after_maxRetries_failures [of 3 1000 always_rejects] h u
    by (simp add: getSuggestion_loop_def always_rejects_def)
qed

lemma retry_loop_success_after:
  assumes "attempts s + j < maxRetries"
    and "\<And>n. fetches s \<le> n \<Longrightarrow> n < fetches s + j \<Longrightarrow> failed_attempt (server n)"
    and "server (fetches s + j) = Response True (Parsed p)"
  shows "attempts (retry_loop maxRetries baseDelayMs server s) = attempts s + j
       \<and> fetches (retry_loop maxRetries baseDelayMs server s) = fetches s + j + 1
       \<and> delays (retry_loop maxRetries baseDelayMs server s)
           = delays s @ map (\<lambda>k. 2 ^ k * baseDelayMs) [Suc (attempts s)..<Suc (attempts s + j)]
       \<and> result (retry_loop maxRetries baseDelayMs server s) = Some p"
  using assms
proof (induction j arbitrary: s)
  case 0
  then show ?case
    by (subst (1 2 3 4) retry_loop.simps) simp
next
  case (Suc j)
  have "failed_attempt (server (fetches s))"
    using Suc.prems(2) by simp
  then obtain s1 where
    s1: "try_fetch (server (fetches s)) s = (False, s1)" "attempts s1 = attempts s"
      "fetches s1 = Suc (fetches s)" "delays s1 = delays s"
    by (rule try_fetch_failed)
  let ?s3 = "s1\<lparr>attempts := Suc (attempts s1),
                delays := delays s1 @ [2 ^ Suc (attempts s1) * baseDelayMs]\<rparr>"
  have unf: "retry_loop maxRetries baseDelayMs server s
           = retry_loop maxRetries baseDelayMs server ?s3"
    using Suc.prems(1) s1 by (subst retry_loop.simps) (simp add: Let_def)
  have ih: "attempts (retry_loop maxRetries baseDelayMs server ?s3) = attempts ?s3 + j
       \<and> fetches (retry_loop maxRetries baseDelayMs server ?s3) = fetches ?s3 + j + 1
       \<and> delays (retry_loop maxRetries baseDelayMs server ?s3)
           = delays ?s3 @ map (\<lambda>k. 2 ^ k * baseDelayMs) [Suc (attempts ?s3)..<Suc (attempts ?s3 + j)]
       \<and> result (retry_loop maxRetries baseDelayMs server ?s3) = Some p"
  proof (rule Suc.IH)
    show "attempts ?s3 + j < maxRetries" using Suc.prems(1) s1 by simp
    show "failed_attempt (server n)" if "fetches ?s3 \<le> n" "n < fetches ?s3 + j" for n
      using that Suc.prems(2)[of n] s1 by simp
    show "server (fetches ?s3 + j) = Response True (Parsed p)"
      using Suc.prems(3) s1 by simp
  qed
  have up: "[Suc (attempts s)..<Suc (attempts s + Suc j)]
          = Suc (attempts s) # [Suc (Suc (attempts s))..<Suc (Suc (attempts s + j))]"
    by (simp add: upt_conv_Cons)
  show ?case
    using ih unf up s1 by simp
qed

lemma retry_from_start_success:
  assumes "m < maxRetries" and "\<forall>n<m. failed_attempt (server n)"
    and "server m = Response True (Parsed p)"
  shows "attempts (retry_loop maxRetries baseDelayMs server initial_retry_state) = m"
    and "fetches (retry_loop maxRetries baseDelayMs server initial_retry_state) = Suc m"
    and "delays (retry_loop maxRetries baseDelayMs server initial_retry_state)
           = map (\<lambda>k. 2 ^ k * baseDelayMs) [1..<Suc m]"
    and "result (retry_loop maxRetries baseDelayMs server initial_retry_state) = Some p"
proof -
  have "attempts initial_retry_state + m < maxRetries"
    using assms(1) by (simp add: initial_retry_state_def)
  moreover have "\<And>n. fetches initial_retry_state \<le> n \<Longrightarrow> n < fetches initial_retry_state + m
      \<Longrightarrow> failed_attempt (server n)"
    using assms(2) by (simp add: initial_retry_state_def)
  moreover have "server (fetches initial_retry_state + m) = Response True (Parsed p)"
    using assms(3) by (simp add: initial_retry_state_def)
  ultimately have
    "attempts (retry_loop maxRetries baseDelayMs server initial_retry_state)
       = attempts initial_retry_state + m
     \<and> fetches (retry_loop maxRetries baseDelayMs server initial_retry_state)
       = fetches initial_retry_state + m + 1
     \<and> delays (retry_loop maxRetries baseDelayMs server initial_retry_state)
       = delays initial_retry_state
         @ map (\<lambda>k. 2 ^ k * baseDelayMs)
             [Suc (attempts initial_retry_state)..<Suc (attempts initial_retry_state + m)]
     \<and> result (retry_loop maxRetries baseDelayMs server initial_retry_state) = Some p"
    by (rule retry_loop_success_after)
  then show "attempts (retry_loop maxRetries baseDelayMs server initial_retry_state) = m"
    and "fetches (retry_loop maxRetries baseDelayMs server initial_retry_state) = Suc m"
    and "delays (retry_loop maxRetries baseDelayMs server initial_retry_state)
           = map (\<lambda>k. 2 ^ k * baseDelayMs) [1..<Suc m]"
    and "result (retry_loop maxRetries baseDelayMs server initial_retry_state) = Some p"
    by (simp_all add: initial_retry_state_def)
qed

lemma retry_from_start_all_failed:
  assumes "\<forall>n<maxRetries. failed_attempt (server n)"
  shows "fetches (retry_loop maxRetries baseDelayMs server initial_retry_state) = maxRetries"
proof (cases "maxRetries = 0")
  case True
  then show ?thesis
    by (subst retry_loop.simps) (simp add: initial_retry_state_def)
next
  case False
  then have "attempts initial_retry_state < maxRetries"
    by (simp add: initial_retry_state_def)
  moreover have "\<And>n. fetches initial_retry_state \<le> n \<Longrightarrow>
      n < fetches initial_retry_state + (maxRetries - attempts initial_retry_state) \<Longrightarrow>
      failed_attempt (server n)"
    using assms by (simp add: initial_retry_state_def)
  ultimately have
    "attempts (retry_loop maxRetries baseDelayMs server initial_retry_state) = maxRetries
       \<and> fetches (retry_loop maxRetries baseDelayMs server initial_retry_state)
           = fetches initial_retry_state + (maxRetries - attempts initial_retry_state)
       \<and> delays (retry_loop maxRetries baseDelayMs server initial_retry_state)
           = delays initial_retry_state
             @ map (\<lambda>k. 2 ^ k * baseDelayMs) [Suc (attempts initial_retry_state)..<maxRetries]
       \<and> result (retry_loop maxRetries baseDelayMs server initial_retry_state)
           = Some max_retries_result"
    by (rule retry_loop_all_failed)
  then show ?thesis
    by (simp add: initial_retry_state_def)
qed

lemma not_failed_attempt:
  assumes "\<not> failed_attempt a"
  obtains p where "a = Response True (Parsed p)"
  using assms by (cases a rule: failed_attempt.cases) auto

text \<open>
  Claim C2 as stated fails: the first attempt comes back with a success status, but its
  body is not JSON. \<^verbatim>\<open>response.json()\<close> is awaited before \<^verbatim>\<open>response.ok\<close> is tested, inside
  the \<^verbatim>\<open>try\<close>, so the attempt throws and is retried: against a server that always answers
  so, the loop makes three attempts and ends with the MaxRetriesExceeded failure.
\<close>

theorem success_status_without_json_not_final:
  "ok_not_json 0 = Response True Unparsable
   \<and> fetches (getSuggestion_loop ok_not_json) = 3
   \<and> delays (getSuggestion_loop ok_not_json) = [2000, 4000]
   \<and> request_result_of 3 (getSuggestion_loop ok_not_json)
       = Some (Failure MaxRetriesExceeded ''Max retries reached. Could not fetch response.'')"
proof -
  have a: "attempts initial_retry_state < 3"
    by (simp add: initial_retry_state_def)
  have u: "[1..<3] = [1, 2::nat]"
    by (simp add: upt_rec)
  show ?thesis
    using retry_loop_all_failed [OF a, of ok_not_json 1000] u
    by (simp add: getSuggestion_loop_def ok_not_json_def initial_retry_state_def
        request_result_of_def max_retries_result_def)
qed

text \<open>
  Claim C2, amended. If attempt \<open>k\<close> (counted from 1, \<open>k \<le> maxRetries\<close>) is the first that
  comes back with a success status and a body that parses as JSON, the attempts before it
  having failed (thrown at \<^verbatim>\<open>fetch\<close> or at \<^verbatim>\<open>json()\<close>, or answered with a status that is not
  ok), the client calls \<^verbatim>\<open>fetch\<close> exactly \<open>k\<close> times and ends with Success and that
  attempt's payload; with \<open>k = 1\<close> it makes one attempt whatever \<open>maxRetries\<close> is. Reading
  the payload comes after the loop and calls \<^verbatim>\<open>fetch\<close> no more, also when it throws.
\<close>

theorem retry_stops_at_first_success:
  assumes "1 \<le> k" and "k \<le> maxRetries"
    and "\<forall>i<k - 1. failed_attempt (server i)"
    and "server (k - 1) = Response True (Parsed payload)"
    and "\<not> isRunning ui" and "lastErrorMessage ui \<noteq> []"
  shows "fetches (retry_loop maxRetries baseDelayMs server initial_retry_state) = k
       \<and> request_result_of maxRetries
            (retry_loop maxRetries baseDelayMs server initial_retry_state)
           = Some (Success payload)
       \<and> delays (retry_loop maxRetries baseDelayMs server initial_retry_state)
           = map (\<lambda>i. baseDelayMs * 2 ^ i) [1..<k]
       \<and> fetches (snd (getSuggestion_with maxRetries baseDelayMs server ui)) = k
       \<and> suggestionBox (fst (getSuggestion_with maxRetries baseDelayMs server ui))
           = show_result (Some payload) BoxSpinner"
proof -
  have m: "k - 1 < maxRetries" and k: "Suc (k - 1) = k"
    using assms(1,2) by simp_all
  note r = retry_from_start_success [OF m assms(3,4), of baseDelayMs]
  show ?thesis
    using r k assms(5,6) m
    by (simp add: request_result_of_def getSuggestion_with_def Let_def mult.commute)
qed

text \<open>
  The source's loop: the first call is rejected, the second answers 200 with the body
  \<^verbatim>\<open>null\<close>, on which the reading of the result throws.
\<close>

theorem retry_stops_at_first_success_witness:
  "(1::nat) \<le> 2 \<and> (2::nat) \<le> 3
   \<and> failed_attempt (rejects_then_answers JNull 0)
   \<and> rejects_then_answers JNull 1 = Response True (Parsed JNull)
   \<and> \<not> isRunning after_failed_run \<and> lastErrorMessage after_failed_run \<noteq> []
   \<and> fetches (getSuggestion_loop (rejects_then_answers JNull)) = 2
   \<and> request_result_of 3 (getSuggestion_loop (rejects_then_answers JNull)) = Some (Success JNull)
   \<and> delays (getSuggestion_loop (rejects_then_answers JNull)) = [2000]
   \<and> fetches (snd (getSuggestion (rejects_then_answers JNull) after_failed_run)) = 2
   \<and> suggestionBox (fst (getSuggestion (rejects_then_answers JNull) after_failed_run))
       = BoxException TypeError"
proof -
  have h: "\<forall>i<2 - 1. failed_attempt (rejects_then_answers JNull i)"
    by (simp add: rejects_then_answers_def)
  have s: "rejects_then_answers JNull (2 - 1) = Response True (Parsed JNull)"
    by (simp add: rejects_then_answers_def)
  have g: "\<not> isRunning after_failed_run" "lastErrorMessage after_failed_run \<noteq> []"
    by (simp_all add: after_failed_run_def)
  have u: "[1..<2] = [1::nat]"
    by (simp add: upt_rec)
  show ?thesis
    using retry_stops_at_first_success [of 2 3 "rejects_then_answers JNull" JNull
        after_failed_run 1000, OF _ _ h s g] u g
    by (simp add: getSuggestion_loop_def getSuggestion_def rejects_then_answers_def
        show_result_def read_result_def)
qed

text \<open>
  Claim C3 as stated fails: an attempt that comes back with a success status and a body
  that is not JSON neither fails at transport nor returns a status outside the success
  range, and it is retried.
\<close>

theorem success_status_without_json_retried:
  "ok_not_json 0 = Response True Unparsable
   \<and> \<not> transport_or_non_2xx (ok_not_json 0)
   \<and> Suc 0 < fetches (getSuggestion_loop ok_not_json)"
proof -
  have "\<forall>n<3. failed_attempt (ok_not_json n)"
    by (simp add: ok_not_json_def)
  then have "fetches (retry_loop 3 1000 ok_not_json initial_retry_state) = 3"
    by (rule retry_from_start_all_failed)
  then show ?thesis
    by (simp add: getSuggestion_loop_def ok_not_json_def)
qed

text \<open>
  Claim C3, amended. An attempt that was made is followed by another one exactly when it
  failed and the retry budget is not used up, where an attempt fails when it fails at
  transport, when its status is not a success status, or when its body does not parse
  (\<^verbatim>\<open>json()\<close> rejects), whatever its status; \<^verbatim>\<open>break\<close> is reached exactly when the
  attempt did not fail. A response with a success status and a parsed body ends the loop
  with that body as the result, whatever the body holds, an \<^verbatim>\<open>error\<close> field included.
\<close>

theorem retried_iff_attempt_failed:
  assumes "i < fetches (retry_loop maxRetries baseDelayMs server initial_retry_state)"
  shows "failed_attempt (server i)
           = (transport_or_non_2xx (server i) \<or> server i = Response True Unparsable)
       \<and> fst (try_fetch (server i) s) = (\<not> failed_attempt (server i))
       \<and> (Suc i < fetches (retry_loop maxRetries baseDelayMs server initial_retry_state))
           = (failed_attempt (server i) \<and> Suc i < maxRetries)
       \<and> (\<forall>b. server i = Response True (Parsed b) \<longrightarrow>
             fetches (retry_loop maxRetries baseDelayMs server initial_retry_state) = Suc i
           \<and> result (retry_loop maxRetries baseDelayMs server initial_retry_state) = Some b
           \<and> request_result_of maxRetries
                (retry_loop maxRetries baseDelayMs server initial_retry_state)
               = Some (Success b))"
proof -
  let ?r = "retry_loop maxRetries baseDelayMs server initial_retry_state"
  have step: "failed_attempt (server i)
                = (transport_or_non_2xx (server i) \<or> server i = Response True Unparsable)
              \<and> fst (try_fetch (server i) s) = (\<not> failed_attempt (server i))"
    by (cases "(server i, s)" rule: try_fetch.cases) auto
  show ?thesis
  proof (cases "\<exists>m<maxRetries. \<not> failed_attempt (server m)")
    case False
    then have all: "\<forall>n<maxRetries. failed_attempt (server n)"
      by blast
    then have f: "fetches ?r = maxRetries"
      by (rule retry_from_start_all_failed)
    with assms have "i < maxRetries"
      by simp
    with all have "failed_attempt (server i)"
      by blast
    then have "\<forall>b. server i \<noteq> Response True (Parsed b)"
      by auto
    with step f \<open>failed_attempt (server i)\<close> show ?thesis
      by simp
  next
    case True
    then obtain m where m: "m < maxRetries \<and> \<not> failed_attempt (server m)"
      and least: "\<forall>n<m. \<not> (n < maxRetries \<and> \<not> failed_attempt (server n))"
      using exists_least_iff [of "\<lambda>m. m < maxRetries \<and> \<not> failed_attempt (server m)"]
      by blast
    from m obtain p where p: "server m = Response True (Parsed p)"
      using not_failed_attempt by blast
    have before: "\<forall>n<m. failed_attempt (server n)"
      using least m by auto
    have m': "m < maxRetries"
      using m by simp
    note r = retry_from_start_success [OF m' before p, of baseDelayMs]
    have im: "i \<le> m"
      using assms r(2) by simp
    show ?thesis
    proof (cases "i = m")
      case True
      then show ?thesis
        using step r p m by (simp add: request_result_of_def)
    next
      case False
      with im have "i < m" by simp
      with before have fi: "failed_attempt (server i)"
        by blast
      then have "\<forall>b. server i \<noteq> Response True (Parsed b)"
        by auto
      with step fi r \<open>i < m\<close> m' show ?thesis
        by simp
    qed
  qed
qed

text \<open>
  The source's loop against a server that answers 200 with an \<^verbatim>\<open>error\<close> field in the
  body: one attempt, and the body is the result. Against a server that answers 403 with
  the same body the first attempt is followed by another.
\<close>

theorem retried_iff_attempt_failed_witness:
  "(0::nat) < fetches (getSuggestion_loop (answers True api_error))
   \<and> answers True api_error 0 = Response True (Parsed api_error)
   \<and> \<not> failed_attempt (answers True api_error 0)
   \<and> member_of api_error ''error'' \<noteq> None
   \<and> fetches (getSuggestion_loop (answers True api_error)) = 1
   \<and> result (getSuggestion_loop (answers True api_error)) = Some api_error
   \<and> request_result_of 3 (getSuggestion_loop (answers True api_error))
       = Some (Success api_error)
   \<and> (0::nat) < fetches (getSuggestion_loop (answers False api_error))
   \<and> failed_attempt (answers False api_error 0)
   \<and> Suc 0 < fetches (getSuggestion_loop (answers False api_error))"
proof -
  have f: "fetches (retry_loop 3 1000 (answers True api_error) initial_retry_state) = 1"
    by (subst retry_loop.simps) (simp add: answers_def initial_retry_state_def)
  then have h: "0 < fetches (retry_loop 3 1000 (answers True api_error) initial_retry_state)"
    by simp
  have "\<forall>n<3. failed_attempt (answers False api_error n)"
    by (simp add: answers_def)
  then have "fetches (retry_loop 3 1000 (answers False api_error) initial_retry_state) = 3"
    by (rule retry_from_start_all_failed)
  then have h': "0 < fetches (retry_loop 3 1000 (answers False api_error) initial_retry_state)"
    by simp
  show ?thesis
    using retried_iff_attempt_failed [OF h, of initial_retry_state]
      retried_iff_attempt_failed [OF h', of initial_retry_state] f h'
    by (simp add: getSuggestion_loop_def answers_def api_error_def)
qed

text \<open>
  Claim C7 as stated fails: the last failed attempt's error or response is not kept.
  Three responses 403 with a body that carries a message end in the fixed object, not in
  the body, and in the same result as three rejected calls.
\<close>

theorem last_failure_detail_not_kept:
  "answers False api_error 2 = Response False (Parsed api_error)
   \<and> failed_attempt (answers False api_error 2)
   \<and> request_result_of 3 (getSuggestion_loop (answers False api_error))
       = Some (Failure MaxRetriesExceeded ''Max retries reached. Could not fetch response.'')
   \<and> result (getSuggestion_loop (answers False api_error)) \<noteq> Some api_error
   \<and> result (getSuggestion_loop (answers False api_error))
       = result (getSuggestion_loop always_rejects)"
proof -
  have a: "attempts initial_retry_state < 3"
    by (simp add: initial_retry_state_def)
  have "result (retry_loop 3 1000 (answers False api_error) initial_retry_state)
      = Some max_retries_result"
    using retry_loop_all_failed [OF a, of "answers False api_error" 1000]
    by (simp add: answers_def)
  moreover have "result (retry_loop 3 1000 always_rejects initial_retry_state)
      = Some max_retries_result"
    using retry_loop_all_failed [OF a, of always_rejects 1000]
    by (simp add: always_rejects_def)
  moreover have "attempts (retry_loop 3 1000 (answers False api_error) initial_retry_state) = 3"
    using retry_loop_all_failed [OF a, of "answers False api_error" 1000]
    by (simp add: answers_def)
  ultimately show ?thesis
    by (simp add: getSuggestion_loop_def request_result_of_def max_retries_result_def
        api_error_def answers_def)
qed

text \<open>
  Claim C7, amended. After \<open>maxRetries\<close> failed attempts the loop ends with the
  MaxRetriesExceeded failure, and its detail is the fixed message
  \<^verbatim>\<open>Max retries reached. Could not fetch response.\<close>, whatever the failures were.
\<close>

theorem exhausted_result_is_fixed_message:
  assumes "1 \<le> maxRetries" and "\<forall>i<maxRetries. failed_attempt (server i)"
  shows "result (retry_loop maxRetries baseDelayMs server initial_retry_state)
           = Some max_retries_result
       \<and> request_result_of maxRetries
            (retry_loop maxRetries baseDelayMs server initial_retry_state)
           = Some (Failure MaxRetriesExceeded
                     ''Max retries reached. Could not fetch response.'')"
proof -
  have "attempts initial_retry_state < maxRetries"
    using assms(1) by (simp add: initial_retry_state_def)
  moreover have "\<And>n. fetches initial_retry_state \<le> n \<Longrightarrow>
      n < fetches initial_retry_state + (maxRetries - attempts initial_retry_state) \<Longrightarrow>
      failed_attempt (server n)"
    using assms(2) by (simp add: initial_retry_state_def)
  ultimately have
    "attempts (retry_loop maxRetries baseDelayMs server initial_retry_state) = maxRetries
       \<and> fetches (retry_loop maxRetries baseDelayMs server initial_retry_state)
           = fetches initial_retry_state + (maxRetries - attempts initial_retry_state)
       \<and> delays (retry_loop maxRetries baseDelayMs server initial_retry_state)
           = delays initial_retry_state
             @ map (\<lambda>k. 2 ^ k * baseDelayMs) [Suc (attempts initial_retry_state)..<maxRetries]
       \<and> result (retry_loop maxRetries baseDelayMs server initial_retry_state)
           = Some max_retries_result"
    by (rule retry_loop_all_failed)
  then show ?thesis
    by (simp add: request_result_of_def max_retries_result_def)
qed

text \<open>
  The source's loop against a server that answers 403 three times.
\<close>

theorem exhausted_result_is_fixed_message_witness:
  "(1::nat) \<le> 3
   \<and> failed_attempt (answers False api_error 0) \<and> failed_attempt (answers False api_error 1)
   \<and> failed_attempt (answers False api_error 2)
   \<and> result (getSuggestion_loop (answers False api_error)) = Some max_retries_result
   \<and> request_result_of 3 (getSuggestion_loop (answers False api_error))
       = Some (Failure MaxRetriesExceeded ''Max retries reached. Could not fetch response.'')"
proof -
  have h: "\<forall>i<3. failed_attempt (answers False api_error i)"
    by (simp add: answers_def)
  show ?thesis
    using exhausted_result_is_fixed_message [of 3 "answers False api_error" 1000] h
    by (simp add: getSuggestion_loop_def answers_def)
qed

section \<open>Properties of the editor persistence\<close>

lemma run_close_edits:
  assumes "listening s" and "close_edits ((t, v) # es)"
    and "\<And>due. saveTimeout s = Some due \<Longrightarrow> t < due"
  shows "run (map edit_event ((t, v) # es)) s
       = s\<lparr>editor_value := snd (last ((t, v) # es)),
            saveTimeout := Some (fst (last ((t, v) # es)) + 2000)\<rparr>"
  using assms
proof (induction es arbitrary: t v s)
  case Nil
  have "fire_due t s = s"
    using Nil.prems(3) by (cases "saveTimeout s") (auto simp: fire_due_def)
  then show ?case
    using Nil.prems(1) by (simp add: on_change_def)
next
  case (Cons e es)
  obtain t2 v2 where e: "e = (t2, v2)"
    by (cases e)
  let ?s1 = "s\<lparr>editor_value := v, saveTimeout := Some (t + 2000)\<rparr>"
  have "fire_due t s = s"
    using Cons.prems(3) by (cases "saveTimeout s") (auto simp: fire_due_def)
  then have step: "run (map edit_event ((t, v) # e # es)) s
                 = run (map edit_event ((t2, v2) # es)) ?s1"
    using Cons.prems(1) e by (simp add: on_change_def)
  have "run (map edit_event ((t2, v2) # es)) ?s1
      = ?s1\<lparr>editor_value := snd (last ((t2, v2) # es)),
             saveTimeout := Some (fst (last ((t2, v2) # es)) + 2000)\<rparr>"
  proof (rule Cons.IH)
    show "listening ?s1" using Cons.prems(1) by simp
    show "close_edits ((t2, v2) # es)" using Cons.prems(2) e by simp
    show "t2 < due" if "saveTimeout ?s1 = Some due" for due
      using that Cons.prems(2) e by simp
  qed
  with step e show ?case
    by simp
qed

text \<open>
  Claim C4. From a state in which persistence is set up and no timer is pending, a
  sequence of \<open>N \<ge> 1\<close> edits, each less than the debounce interval after the one
  before, leads to exactly one more call of \<^verbatim>\<open>setDoc\<close>: it is made 2000 ms after the
  last edit and writes the content of the last edit.
\<close>

theorem close_edits_persist_once:
  assumes "db_ready s" and "has_user (userId s)" and "listening s"
    and "saveTimeout s = None" and "edits \<noteq> []" and "close_edits edits"
  shows "setDoc_calls (quiesce (run (map edit_event edits) s))
           = setDoc_calls s @ [(fst (last edits) + 2000, snd (last edits))]
       \<and> saveTimeout (quiesce (run (map edit_event edits) s)) = None"
proof -
  obtain t v es where edits: "edits = (t, v) # es"
    using assms(5) by (cases edits) auto
  have "run (map edit_event ((t, v) # es)) s
      = s\<lparr>editor_value := snd (last ((t, v) # es)),
           saveTimeout := Some (fst (last ((t, v) # es)) + 2000)\<rparr>"
    using assms(3,4,6) edits by (intro run_close_edits) simp_all
  then show ?thesis
    using assms(1,2) edits
    by (simp add: quiesce_def fire_due_def saveEditorContent_def)
qed

text \<open>
  The scenario of the specification: edits at 0, 500 and 800 ms; one write of the last
  content at 2800 ms, after the write that the setup itself made at 0 ms.
\<close>

theorem close_edits_persist_once_witness:
  "db_ready (setupEditorPersistence 0 (signed_in NoDocument))
   \<and> has_user (userId (setupEditorPersistence 0 (signed_in NoDocument)))
   \<and> listening (setupEditorPersistence 0 (signed_in NoDocument))
   \<and> saveTimeout (setupEditorPersistence 0 (signed_in NoDocument)) = None
   \<and> [(0, ''a''), (500, ''ab''), (800, ''abc'')] \<noteq> []
   \<and> close_edits [(0, ''a''), (500, ''ab''), (800, ''abc'')]
   \<and> setDoc_calls
        (quiesce (run [(0, Change ''a''), (500, Change ''ab''), (800, Change ''abc'')]
                    (setupEditorPersistence 0 (signed_in NoDocument))))
       = [(0, ''print(1)''), (2800, ''abc'')]"
proof -
  let ?s = "setupEditorPersistence 0 (signed_in NoDocument)"
  have h: "db_ready ?s" "has_user (userId ?s)" "listening ?s" "saveTimeout ?s = None"
    by (simp_all add: setupEditorPersistence_def signed_in_def saveEditorContent_def)
  have c: "close_edits [(0, ''a''), (500, ''ab''), (800, ''abc'')]"
    by simp
  have w: "setDoc_calls ?s = [(0, ''print(1)'')]"
    by (simp add: setupEditorPersistence_def signed_in_def saveEditorContent_def)
  show ?thesis
    using close_edits_persist_once [OF h _ c] h c w
    by simp
qed

text \<open>
  Claim C5 as stated fails: a snapshot whose \<^verbatim>\<open>code\<close> is the empty string differs from
  the editor's content and is not applied; the callback tests \<^verbatim>\<open>docSnap.data().code\<close>
  for truthiness first.
\<close>

theorem empty_remote_code_not_applied:
  "listening (setupEditorPersistence 0 (signed_in NoDocument))
   \<and> editor_value (setupEditorPersistence 0 (signed_in NoDocument)) \<noteq> []
   \<and> editor_value
        (handle (Snapshot (Document (Some []))) 5
           (setupEditorPersistence 0 (signed_in NoDocument)))
       = ''print(1)''"
  by (simp add: setupEditorPersistence_def signed_in_def saveEditorContent_def)

text \<open>
  Claim C5, amended. A snapshot whose code equals the editor's content changes nothing.
  A snapshot whose code is not empty and differs from the editor's content overwrites
  the content, once, and leaves the writes made and the writes outstanding as they are.
  The callback itself does not touch the pending save timer: the timer stays as it is
  unless the editor reports the overwrite as a change, and then the change handler
  restarts it as for an edit.
\<close>

theorem snapshot_applies_nonempty_difference:
  assumes "listening s"
  shows "(v = editor_value s \<longrightarrow> handle (Snapshot (Document (Some v))) t s = s)
       \<and> (v \<noteq> [] \<and> v \<noteq> editor_value s \<longrightarrow>
            editor_value (handle (Snapshot (Document (Some v))) t s) = v
          \<and> console (handle (Snapshot (Document (Some v))) t s)
              = console s @ [''Editor content loaded from Firestore.'']
          \<and> saveTimeout (handle (Snapshot (Document (Some v))) t s)
              = (if setValue_notifies s then Some (t + 2000) else saveTimeout s)
          \<and> setDoc_calls (handle (Snapshot (Document (Some v))) t s) = setDoc_calls s
          \<and> outstanding (handle (Snapshot (Document (Some v))) t s) = outstanding s)"
  using assms by (auto simp: on_change_def Let_def)

text \<open>
  A snapshot arrives at 150 ms while the timer of an edit at 100 ms is pending. With an
  editor that does not report \<^verbatim>\<open>setValue\<close> as a change the timer stays due at 2100 ms;
  with one that does, the change handler restarts it. A snapshot equal to the content
  changes nothing.
\<close>

theorem snapshot_applies_nonempty_difference_witness:
  "listening (on_change 100 (setupEditorPersistence 0 (signed_in NoDocument)))
   \<and> ''print(2)'' \<noteq> []
   \<and> ''print(2)'' \<noteq> editor_value (on_change 100 (setupEditorPersistence 0 (signed_in NoDocument)))
   \<and> editor_value
        (handle (Snapshot (Document (Some ''print(2)''))) 150
           (on_change 100 (setupEditorPersistence 0 (signed_in NoDocument))))
       = ''print(2)''
   \<and> saveTimeout
        (handle (Snapshot (Document (Some ''print(2)''))) 150
           (on_change 100 (setupEditorPersistence 0 (signed_in NoDocument))))
       = Some 2150
   \<and> saveTimeout
        (handle (Snapshot (Document (Some ''print(2)''))) 150
           ((on_change 100 (setupEditorPersistence 0 (signed_in NoDocument)))
              \<lparr>setValue_notifies := False\<rparr>))
       = Some 2100
   \<and> handle (Snapshot (Document (Some ''print(1)''))) 150
        (on_change 100 (setupEditorPersistence 0 (signed_in NoDocument)))
       = on_change 100 (setupEditorPersistence 0 (signed_in NoDocument))"
proof -
  let ?s = "on_change 100 (setupEditorPersistence 0 (signed_in NoDocument))"
  have l: "listening ?s" "listening (?s\<lparr>setValue_notifies := False\<rparr>)"
    by (simp_all add: on_change_def setupEditorPersistence_def signed_in_def
        saveEditorContent_def)
  have e: "editor_value ?s = ''print(1)''" and t: "saveTimeout ?s = Some 2100"
    and n: "setValue_notifies ?s"
    by (simp_all add: on_change_def setupEditorPersistence_def signed_in_def
        saveEditorContent_def)
  show ?thesis
    using snapshot_applies_nonempty_difference [OF l(1), of "''print(2)''" 150]
      snapshot_applies_nonempty_difference [OF l(2), of "''print(2)''" 150]
      snapshot_applies_nonempty_difference [OF l(1), of "''print(1)''" 150] l e t n
    by simp
qed

text \<open>
  Claim C6 as stated fails: the timer writes also when the content is the one persisted
  last. The setup's write of the default snippet has resolved; the user types and undoes
  it; the timer writes the same content again.
\<close>

theorem unchanged_content_written_again:
  "remote (run [(50, Settled True), (100, Change ''x''), (200, Change ''print(1)'')]
             (setupEditorPersistence 0 (signed_in NoDocument)))
     = Document (Some ''print(1)'')
   \<and> editor_value (run [(50, Settled True), (100, Change ''x''), (200, Change ''print(1)'')]
             (setupEditorPersistence 0 (signed_in NoDocument)))
     = ''print(1)''
   \<and> setDoc_calls
        (quiesce (run [(50, Settled True), (100, Change ''x''), (200, Change ''print(1)'')]
                    (setupEditorPersistence 0 (signed_in NoDocument))))
     = [(0, ''print(1)''), (2200, ''print(1)'')]"
  by (simp add: setupEditorPersistence_def signed_in_def saveEditorContent_def
      fire_due_def setDoc_settles_def on_change_def quiesce_def)

text \<open>
  Claim C6, amended. When the debounce timer fires, with the database and the user
  present, \<^verbatim>\<open>saveEditorContent\<close> calls \<^verbatim>\<open>setDoc\<close> with the content the editor has then,
  whether or not it differs from what was written before; no last persisted value is
  kept.
\<close>

theorem timer_fire_persists_unconditionally:
  assumes "db_ready s" and "has_user (userId s)"
    and "saveTimeout s = Some due" and "due \<le> t"
  shows "setDoc_calls (fire_due t s) = setDoc_calls s @ [(due, editor_value s)]
       \<and> saveTimeout (fire_due t s) = None
       \<and> editor_value (fire_due t s) = editor_value s"
  using assms by (simp add: fire_due_def saveEditorContent_def)

text \<open>
  The timer of an edit that left the content as the setup wrote it.
\<close>

theorem timer_fire_persists_unconditionally_witness:
  "db_ready (on_change 100 (setupEditorPersistence 0 (signed_in NoDocument)))
   \<and> has_user (userId (on_change 100 (setupEditorPersistence 0 (signed_in NoDocument))))
   \<and> saveTimeout (on_change 100 (setupEditorPersistence 0 (signed_in NoDocument))) = Some 2100
   \<and> (2100::nat) \<le> 2100
   \<and> setDoc_calls (fire_due 2100 (on_change 100 (setupEditorPersistence 0 (signed_in NoDocument))))
       = [(0, ''print(1)''), (2100, ''print(1)'')]"
proof -
  let ?s = "on_change 100 (setupEditorPersistence 0 (signed_in NoDocument))"
  have h: "db_ready ?s" "has_user (userId ?s)" "saveTimeout ?s = Some 2100"
    by (simp_all add: on_change_def setupEditorPersistence_def signed_in_def
        saveEditorContent_def)
  have w: "setDoc_calls ?s = [(0, ''print(1)'')]" and e: "editor_value ?s = ''print(1)''"
    by (simp_all add: on_change_def setupEditorPersistence_def signed_in_def
        saveEditorContent_def)
  show ?thesis
    using timer_fire_persists_unconditionally [OF h, of 2100] h w e
    by simp
qed

text \<open>
  Claim C8 holds of the purpose the source states and fails on the code. The comment
  gives the initial save as the way to ensure that a document exists, yet
  \<^verbatim>\<open>setupEditorPersistence\<close> calls \<^verbatim>\<open>saveEditorContent()\<close> without looking at the store.
  When a document exists, the write is made all the same, at once, and when it resolves
  the store holds the editor's content in place of the code that was stored; the
  listener registered in the same function has had no snapshot to load by then.
\<close>

theorem setup_overwrites_existing_document:
  assumes "db_ready s" and "has_user (userId s)"
    and "outstanding s = []" and "remote s = Document (Some stored)"
  shows "setDoc_calls (setupEditorPersistence now s) = setDoc_calls s @ [(now, editor_value s)]
       \<and> editor_value (setupEditorPersistence now s) = editor_value s
       \<and> remote (setupEditorPersistence now s) = Document (Some stored)
       \<and> remote (setDoc_settles True (setupEditorPersistence now s))
           = Document (Some (editor_value s))"
  using assms
  by (simp add: setupEditorPersistence_def saveEditorContent_def setDoc_settles_def)

text \<open>
  The store holds \<^verbatim>\<open>saved code\<close> when the page is set up: the write of the editor's
  first content is made at 0 ms and replaces it.
\<close>

theorem setup_overwrites_existing_document_witness:
  "db_ready (signed_in (Document (Some ''saved code'')))
   \<and> has_user (userId (signed_in (Document (Some ''saved code''))))
   \<and> outstanding (signed_in (Document (Some ''saved code''))) = []
   \<and> remote (signed_in (Document (Some ''saved code''))) = Document (Some ''saved code'')
   \<and> setDoc_calls (setupEditorPersistence 0 (signed_in (Document (Some ''saved code''))))
       = [(0, ''print(1)'')]
   \<and> remote (run [(10, Settled True)]
               (setupEditorPersistence 0 (signed_in (Document (Some ''saved code'')))))
       = Document (Some ''print(1)'')"
proof -
  let ?s = "signed_in (Document (Some ''saved code''))"
  have h: "db_ready ?s" "has_user (userId ?s)" "outstanding ?s = []"
    "remote ?s = Document (Some ''saved code'')"
    by (simp_all add: signed_in_def)
  have w: "setDoc_calls ?s = []" and e: "editor_value ?s = ''print(1)''"
    by (simp_all add: signed_in_def)
  have t: "saveTimeout (setupEditorPersistence 0 ?s) = None"
    by (simp add: setupEditorPersistence_def signed_in_def saveEditorContent_def)
  show ?thesis
    using setup_overwrites_existing_document [OF h, of 0] h w e t
    by (simp add: fire_due_def)
qed

text \<open>
  Claim C9 as stated fails: two fast edits that each pass their debounce window start two
  writes that are outstanding together. The write of \<^verbatim>\<open>a\<close> starts at 3000 ms and has not
  settled when the write of \<^verbatim>\<open>ab\<close> starts at 5500 ms.
\<close>

theorem two_persists_outstanding:
  "outstanding
     (run [(10, Settled True), (1000, Change ''a''), (3500, Change ''ab'')]
        (setupEditorPersistence 0 (signed_in NoDocument)))
     = [''a'']
   \<and> outstanding
     (quiesce (run [(10, Settled True), (1000, Change ''a''), (3500, Change ''ab'')]
                 (setupEditorPersistence 0 (signed_in NoDocument))))
     = [''a'', ''ab'']"
  by (simp add: setupEditorPersistence_def signed_in_def saveEditorContent_def
      fire_due_def setDoc_settles_def on_change_def quiesce_def)

lemma spaced_snoc:
  "spaced ws \<Longrightarrow> list_all (\<lambda>w. w + 2000 \<le> d) ws \<Longrightarrow> spaced (ws @ [d])"
  by (induction ws rule: spaced.induct) auto

lemma list_all_le_mono:
  "list_all (\<lambda>w. w \<le> t) ws \<Longrightarrow> t \<le> t' \<Longrightarrow> list_all (\<lambda>w. w \<le> (t'::nat)) ws"
  by (induction ws) auto

lemma debounced_fire_due:
  assumes "debounced t0 s" and "t0 \<le> t"
  shows "debounced t (fire_due t s)"
proof (cases "saveTimeout s")
  case None
  then show ?thesis
    using assms by (auto simp: debounced_def fire_due_def intro: list_all_le_mono)
next
  case (Some due)
  show ?thesis
  proof (cases "due \<le> t")
    case False
    then show ?thesis
      using assms Some by (auto simp: debounced_def fire_due_def intro: list_all_le_mono)
  next
    case True
    then show ?thesis
      using assms Some
      by (auto simp: debounced_def fire_due_def saveEditorContent_def
          intro: list_all_le_mono spaced_snoc)
  qed
qed

lemma list_all_shift:
  "list_all (\<lambda>w. w \<le> t) ws \<Longrightarrow> list_all (\<lambda>w. w + 2000 \<le> t + (2000::nat)) ws"
  by (induction ws) auto

lemma debounced_handle:
  assumes "debounced t s"
  shows "debounced t (handle e t s)"
proof (cases e)
  case (Change v)
  then show ?thesis
    using assms
    by (auto simp: debounced_def on_change_def split: option.splits intro: list_all_shift)
next
  case (Snapshot d)
  show ?thesis
  proof (cases d)
    case NoDocument
    then show ?thesis using assms Snapshot by simp
  next
    case (Document c)
    then show ?thesis
      using assms Snapshot
      by (cases c)
        (auto simp: debounced_def on_change_def Let_def split: option.splits
          intro: list_all_shift)
  qed
next
  case (Settled r)
  then show ?thesis
    using assms
    by (auto simp: debounced_def setDoc_settles_def split: list.splits option.splits)
qed

lemma debounced_run:
  assumes "debounced t0 s" and "in_order t0 es"
  shows "\<exists>t. debounced t (run es s)"
  using assms
proof (induction es arbitrary: t0 s)
  case Nil
  then show ?case by auto
next
  case (Cons te es)
  obtain t e where te: "te = (t, e)"
    by (cases te)
  have "debounced t (handle e t (fire_due t s))"
    using Cons.prems te by (intro debounced_handle debounced_fire_due) auto
  moreover have "in_order t es"
    using Cons.prems te by simp
  ultimately show ?case
    using Cons.IH te by simp
qed

lemma debounced_quiesce:
  assumes "debounced t s"
  shows "spaced (map fst (setDoc_calls (quiesce s)))"
  using assms
  by (auto simp: debounced_def quiesce_def fire_due_def saveEditorContent_def
      split: option.splits intro: spaced_snoc)

text \<open>
  Claim C9, amended. In every run of one store whose events come in the order of their
  times, two persists start at least the debounce interval apart. Nothing else keeps them
  from overlapping: when the timer fires, with the database and the user present, a write
  starts whatever writes are outstanding.
\<close>

theorem persists_spaced_not_guarded:
  assumes "setDoc_calls s = []" and "in_order t0 es"
    and "db_ready s'" and "has_user (userId s')"
    and "saveTimeout s' = Some due" and "due \<le> t"
  shows "spaced (map fst (setDoc_calls (quiesce (run es (setupEditorPersistence t0 s)))))
       \<and> outstanding (fire_due t s') = outstanding s' @ [editor_value s']"
proof -
  have "debounced t0 (setupEditorPersistence t0 s)"
    using assms(1)
    by (simp add: debounced_def setupEditorPersistence_def saveEditorContent_def
        split: option.splits)
  then obtain t1 where "debounced t1 (run es (setupEditorPersistence t0 s))"
    using debounced_run assms(2) by blast
  then have "spaced (map fst (setDoc_calls (quiesce (run es (setupEditorPersistence t0 s)))))"
    by (rule debounced_quiesce)
  moreover have "outstanding (fire_due t s') = outstanding s' @ [editor_value s']"
    using assms(3-6) by (simp add: fire_due_def saveEditorContent_def)
  ultimately show ?thesis
    by simp
qed

text \<open>
  The run of the counterexample: the writes start at 0, 3000 and 5500 ms, and the last
  one starts while the one before it is outstanding.
\<close>

theorem persists_spaced_not_guarded_witness:
  "setDoc_calls (signed_in NoDocument) = []
   \<and> in_order 0 [(10, Settled True), (1000, Change ''a''), (3500, Change ''ab'')]
   \<and> db_ready (run [(10, Settled True), (1000, Change ''a''), (3500, Change ''ab'')]
        (setupEditorPersistence 0 (signed_in NoDocument)))
   \<and> has_user (userId (run [(10, Settled True), (1000, Change ''a''), (3500, Change ''ab'')]
        (setupEditorPersistence 0 (signed_in NoDocument))))
   \<and> saveTimeout (run [(10, Settled True), (1000, Change ''a''), (3500, Change ''ab'')]
        (setupEditorPersistence 0 (signed_in NoDocument))) = Some 5500
   \<and> (5500::nat) \<le> 5500
   \<and> map fst (setDoc_calls
        (quiesce (run [(10, Settled True), (1000, Change ''a''), (3500, Change ''ab'')]
                    (setupEditorPersistence 0 (signed_in NoDocument)))))
       = [0, 3000, 5500]
   \<and> spaced [0, 3000, 5500]
   \<and> outstanding (fire_due 5500
        (run [(10, Settled True), (1000, Change ''a''), (3500, Change ''ab'')]
           (setupEditorPersistence 0 (signed_in NoDocument)))) = [''a'', ''ab'']"
proof -
  let ?es = "[(10, Settled True), (1000, Change ''a''), (3500, Change ''ab'')]"
  let ?s = "run ?es (setupEditorPersistence 0 (signed_in NoDocument))"
  have e: "setDoc_calls (signed_in NoDocument) = []"
    by (simp add: signed_in_def)
  have i: "in_order 0 ?es"
    by simp
  have h: "db_ready ?s" "has_user (userId ?s)" "saveTimeout ?s = Some 5500"
    by (simp_all add: setupEditorPersistence_def signed_in_def saveEditorContent_def
      fire_due_def setDoc_settles_def on_change_def)
  have o: "outstanding ?s = [''a'']" and v: "editor_value ?s = ''ab''"
    by (simp_all add: setupEditorPersistence_def signed_in_def saveEditorContent_def
      fire_due_def setDoc_settles_def on_change_def)
  have w: "map fst (setDoc_calls (quiesce ?s)) = [0, 3000, 5500]"
    by (simp add: setupEditorPersistence_def signed_in_def saveEditorContent_def
      fire_due_def setDoc_settles_def on_change_def quiesce_def)
  show ?thesis
    using persists_spaced_not_guarded [OF e i h, of 5500] e i h o v w
    by simp
qed

section \<open>Properties of the run-code handlers\<close>

text \<open>
  Claim C10. Whatever a run-code request meets (a rejected \<^verbatim>\<open>fetch\<close>, a body that is
  not JSON, any status, any parsed body), the run button is enabled when the handler has
  finished: the four handlers that disable it enable it again in their \<^verbatim>\<open>finally\<close>,
  and \<^verbatim>\<open>handleRunCode\<close> leaves the button as it was. The second front-end of
  static/script.js sends no request (it simulates the run in the browser) and is not
  part of this.
\<close>

theorem run_button_enabled_after_request:
  "\<not> run_disabled (script_click r p)
   \<and> \<not> run_disabled (part_000_click r p)
   \<and> \<not> run_disabled (part_001_runCode r p)
   \<and> \<not> run_disabled (firebase_runCode selected r p)
   \<and> run_disabled (handleRunCode r p) = run_disabled p"
proof -
  have "run_disabled (handleRunCode r p) = run_disabled p"
  proof (cases r)
    case NoReply
    then show ?thesis
      by (simp add: handleRunCode_def Let_def)
  next
    case (Reply ok st b)
    then show ?thesis
      by (cases b) (auto simp: handleRunCode_def Let_def split: sum.splits)
  qed
  then show ?thesis
    by (simp add: script_click_def part_000_click_def part_001_runCode_def
        firebase_runCode_def Let_def)
qed

text \<open>
  A success payload, an error payload, a status 500, a rejected \<^verbatim>\<open>fetch\<close> and a body
  that is not JSON.
\<close>

theorem run_button_enabled_witness:
  "\<not> run_disabled (script_click (Reply True ''OK'' (Parsed run_ok)) fresh_page)
   \<and> \<not> run_disabled (part_000_click (Reply True ''OK'' (Parsed run_error)) fresh_page)
   \<and> \<not> run_disabled
        (part_001_runCode (Reply False ''Internal Server Error'' (Parsed run_error)) fresh_page)
   \<and> \<not> run_disabled (firebase_runCode [''lexical''] NoReply fresh_page)
   \<and> \<not> run_disabled (handleRunCode (Reply True ''OK'' Unparsable) fresh_page)
   \<and> status (script_click (Reply True ''OK'' (Parsed run_ok)) fresh_page)
       = ''Execution Complete''
   \<and> status (part_000_click (Reply True ''OK'' (Parsed run_error)) fresh_page)
       = ''Finished with Errors''
   \<and> out (part_001_runCode (Reply False ''Internal Server Error'' (Parsed run_error))
            fresh_page)
       = [Lit ''Server Error: '', Val (Some (JStr ''NameError: name x is not defined''))]
   \<and> out (handleRunCode (Reply True ''OK'' Unparsable) fresh_page)
       = [Lit ''Error: '', Lit ''Network or Unexpected Error: '', Msg JsonFailed]"
proof -
  have "\<not> run_disabled fresh_page"
    by (simp add: fresh_page_def)
  moreover have "status (script_click (Reply True ''OK'' (Parsed run_ok)) fresh_page)
       = ''Execution Complete''"
    by (simp add: script_click_def run_ok_def fresh_page_def add_class_def)
  moreover have "status (part_000_click (Reply True ''OK'' (Parsed run_error)) fresh_page)
       = ''Finished with Errors''"
    by (simp add: part_000_click_def run_error_def fresh_page_def add_class_def)
  moreover have "out (part_001_runCode (Reply False ''Internal Server Error'' (Parsed run_error))
            fresh_page)
       = [Lit ''Server Error: '', Val (Some (JStr ''NameError: name x is not defined''))]"
    by (simp add: part_001_runCode_def run_error_def fresh_page_def)
  moreover have "out (handleRunCode (Reply True ''OK'' Unparsable) fresh_page)
       = [Lit ''Error: '', Lit ''Network or Unexpected Error: '', Msg JsonFailed]"
    by (simp add: handleRunCode_def fresh_page_def)
  ultimately show ?thesis
    using run_button_enabled_after_request
            [of "Reply True ''OK'' (Parsed run_ok)" fresh_page "[]"]
          run_button_enabled_after_request
            [of "Reply True ''OK'' (Parsed run_error)" fresh_page "[]"]
          run_button_enabled_after_request
            [of "Reply False ''Internal Server Error'' (Parsed run_error)" fresh_page "[]"]
          run_button_enabled_after_request [of NoReply fresh_page "[''lexical'']"]
          run_button_enabled_after_request [of "Reply True ''OK'' Unparsable" fresh_page "[]"]
    by simp
qed

end
